theory Spec2Isabelle
  imports Main "HOL-Library.Word"
begin

section \<open>World render orchestration (world.py)\<close>

text \<open>
  A shallow embedding of \<^verbatim>\<open>world.py\<close>. Python's unbounded integers are \<open>int\<close>,
  tuples are products, lists are lists, and every exception the module can raise is a
  value of \<open>py_error\<close>, returned as \<open>Inl\<close>.
\<close>

datatype py_error =
    IndexError
  | ValueError
  | AssertionError
  | SystemExit int
  | NotYetWorking

subsection \<open>Coordinate conversion\<close>

text \<open>
  A raw chunk is the tuple \<^verbatim>\<open>(chunkx, chunky, regionfile)\<close> built by
  \<^verbatim>\<open>_get_chunklist\<close>; a translated chunk is \<^verbatim>\<open>(col, row, (chunkX, chunkY))\<close>.
\<close>

type_synonym raw_chunk = "int \<times> int \<times> string"
type_synonym chunk_xy = "int \<times> int"
type_synonym translated_chunk = "int \<times> int \<times> chunk_xy"

text \<open>The two expressions of the loop body: \<^verbatim>\<open>c[0] + c[1]\<close> and \<^verbatim>\<open>c[1] - c[0]\<close>.\<close>

definition col_of :: "raw_chunk \<Rightarrow> int" where
  "col_of c = fst c + fst (snd c)"

definition row_of :: "raw_chunk \<Rightarrow> int" where
  "row_of c = fst (snd c) - fst c"

definition project :: "chunk_xy \<Rightarrow> int \<times> int" where
  "project xy = (fst xy + snd xy, snd xy - fst xy)"

text \<open>The inverse the specification gives: \<open>x = (col - row) / 2\<close>, \<open>y = (col + row) / 2\<close>.\<close>

definition unproject :: "int \<times> int \<Rightarrow> chunk_xy" where
  "unproject cr = ((fst cr - snd cr) div 2, (fst cr + snd cr) div 2)"

text \<open>
  The \<^verbatim>\<open>for c in chunks\<close> loop of \<^verbatim>\<open>_convert_coords\<close>, with its five
  accumulators as arguments.
\<close>

fun convert_loop ::
  "raw_chunk list \<Rightarrow> int \<Rightarrow> int \<Rightarrow> int \<Rightarrow> int \<Rightarrow> translated_chunk list \<Rightarrow>
     int \<times> int \<times> int \<times> int \<times> translated_chunk list" where
  "convert_loop [] mincol maxcol minrow maxrow chunks_translated =
     (mincol, maxcol, minrow, maxrow, chunks_translated)"
| "convert_loop (c # cs) mincol maxcol minrow maxrow chunks_translated =
     (let col = fst c + fst (snd c);
          mincol' = min mincol col;
          maxcol' = max maxcol col;
          row = fst (snd c) - fst c;
          minrow' = min minrow row;
          maxrow' = max maxrow row
      in convert_loop cs mincol' maxcol' minrow' maxrow'
           (chunks_translated @ [(col, row, (fst c, fst (snd c)))]))"

text \<open>
  \<^verbatim>\<open>_convert_coords\<close>: \<^verbatim>\<open>item = chunks[0]\<close> raises IndexError on an empty list;
  otherwise the accumulators are seeded from the first element and the loop runs over
  the whole list (the first element included).
\<close>

definition convert_coords ::
  "raw_chunk list \<Rightarrow> py_error + (int \<times> int \<times> int \<times> int \<times> translated_chunk list)" where
  "convert_coords chunks =
     (case chunks of
        [] \<Rightarrow> Inl IndexError
      | item # _ \<Rightarrow>
          Inr (convert_loop chunks
                 (fst item + fst (snd item)) (fst item + fst (snd item))
                 (fst (snd item) - fst item) (fst (snd item) - fst item) []))"

subsection \<open>Region scanning\<close>

text \<open>
  A region is the tuple \<^verbatim>\<open>(regionx, regiony, filename)\<close> that
  \<^verbatim>\<open>_find_regionfiles\<close> builds for every file \<^verbatim>\<open>r.*.*.mcr\<close> in a leaf
  directory below \<^verbatim>\<open>region\<close>. The walk of the file system is outside the
  embedding: the list it returns is the argument of \<open>get_chunklist\<close>.
\<close>

type_synonym region = "int \<times> int \<times> string"

definition region_coord :: "region \<Rightarrow> int \<times> int" where
  "region_coord region = (fst region, fst (snd region))"

definition chunk_coord :: "raw_chunk \<Rightarrow> chunk_xy" where
  "chunk_coord c = (fst c, fst (snd c))"

text \<open>Python's \<^verbatim>\<open>range(lo, hi)\<close> on integers.\<close>

definition py_range :: "int \<Rightarrow> int \<Rightarrow> int list" where
  "py_range lo hi = [lo..hi - 1]"

text \<open>
  The two statements that build \<^verbatim>\<open>these_chunks\<close>: the product of the two ranges
  (\<^verbatim>\<open>itertools.product\<close> varies its last argument fastest, as \<open>List.product\<close>
  does), then the region's file name attached to every pair.
\<close>

definition these_chunks :: "region \<Rightarrow> raw_chunk list" where
  "these_chunks region =
     map (\<lambda>x. (fst x, snd x, snd (snd region)))
       (List.product
          (py_range (fst region * 32) (fst region * 32 + 32))
          (py_range (fst (snd region) * 32) (fst (snd region) * 32 + 32)))"

text \<open>The \<^verbatim>\<open>for region in regions\<close> loop, the assertion included.\<close>

fun chunklist_loop :: "region list \<Rightarrow> raw_chunk list \<Rightarrow> py_error + raw_chunk list" where
  "chunklist_loop [] all_chunks = Inr all_chunks"
| "chunklist_loop (region # regions) all_chunks =
     (if length (these_chunks region) = 1024
      then chunklist_loop regions (all_chunks @ these_chunks region)
      else Inl AssertionError)"

text \<open>
  \<^verbatim>\<open>_get_chunklist\<close>: \<^verbatim>\<open>sys.exit(1)\<close> when the list is empty after the loop.
\<close>

definition get_chunklist :: "region list \<Rightarrow> py_error + raw_chunk list" where
  "get_chunklist regions =
     (case chunklist_loop regions [] of
        Inl e \<Rightarrow> Inl e
      | Inr all_chunks \<Rightarrow>
          if all_chunks = [] then Inl (SystemExit 1) else Inr all_chunks)"

subsection \<open>Points of interest and the true spawn\<close>

text \<open>
  A point of interest is the dictionary
  \<^verbatim>\<open>dict(x=..., y=..., z=..., msg=..., type=..., chunk=...)\<close>.
\<close>

record poi =
  poi_x :: int
  poi_y :: int
  poi_z :: int
  poi_msg :: string
  poi_type :: string
  poi_chunk :: "int \<times> int"

text \<open>
  The part of the world object that this module changes after construction:
  \<^verbatim>\<open>self.POI\<close> and \<^verbatim>\<open>self.persistentData['POI']\<close>.
\<close>

record world =
  POI :: "poi list"
  persistentData_POI :: "poi list"

text \<open>
  \<^verbatim>\<open>numpy.frombuffer(..., dtype=numpy.uint8).reshape((16,16,128))\<close> fails with a
  ValueError unless the buffer holds \<open>16 * 16 * 128\<close> bytes. The array is kept as the
  flat list of bytes; element \<open>[i, j, k]\<close> of the reshaped (row-major) array is byte
  \<open>(i * 16 + j) * 128 + k\<close>. An index outside \<open>[-n, n)\<close> on an axis of length \<open>n\<close>
  raises IndexError; a negative one counts from the end of its axis.
\<close>

definition np_axis :: "int \<Rightarrow> int \<Rightarrow> py_error + int" where
  "np_axis n i =
     (if 0 \<le> i \<and> i < n then Inr i
      else if - n \<le> i \<and> i < 0 then Inr (i + n)
      else Inl IndexError)"

definition blockArray_get :: "8 word list \<Rightarrow> int \<Rightarrow> int \<Rightarrow> int \<Rightarrow> py_error + 8 word" where
  "blockArray_get blocks i j k =
     (case np_axis 16 i of
        Inl e \<Rightarrow> Inl e
      | Inr i' \<Rightarrow>
          (case np_axis 16 j of
             Inl e \<Rightarrow> Inl e
           | Inr j' \<Rightarrow>
               (case np_axis 128 k of
                  Inl e \<Rightarrow> Inl e
                | Inr k' \<Rightarrow> Inr (blocks ! nat ((i' * 16 + j') * 128 + k')))))"

text \<open>
  The loop \<^verbatim>\<open>while blockArray[inChunkX, inChunkZ, spawnY] != 0\<close>, which adds one
  to \<^verbatim>\<open>spawnY\<close> and leaves when it reaches 128. It returns the final
  \<^verbatim>\<open>spawnY\<close>.
\<close>

function spawn_loop :: "8 word list \<Rightarrow> int \<Rightarrow> int \<Rightarrow> int \<Rightarrow> py_error + int" where
  "spawn_loop blocks inChunkX inChunkZ spawnY =
     (case blockArray_get blocks inChunkX inChunkZ spawnY of
        Inl e \<Rightarrow> Inl e
      | Inr b \<Rightarrow>
          if b \<noteq> 0
          then (if spawnY + 1 = 128 then Inr (spawnY + 1)
                else spawn_loop blocks inChunkX inChunkZ (spawnY + 1))
          else Inr spawnY)"
  by pat_completeness auto
termination
proof (relation "measure (\<lambda>(blocks, inChunkX, inChunkZ, spawnY). nat (128 - spawnY))")
  show "wf (measure (\<lambda>(blocks, inChunkX, inChunkZ, spawnY). nat (128 - spawnY)))"
    by simp
next
  fix blocks :: "8 word list" and inChunkX inChunkZ spawnY :: int and b :: "8 word"
  assume "blockArray_get blocks inChunkX inChunkZ spawnY = Inr b"
  then have "spawnY < 128"
    by (auto simp: blockArray_get_def np_axis_def split: sum.splits if_splits)
  then show "((blocks, inChunkX, inChunkZ, spawnY + 1), (blocks, inChunkX, inChunkZ, spawnY))
      \<in> measure (\<lambda>(blocks, inChunkX, inChunkZ, spawnY). nat (128 - spawnY))"
    by simp
qed

text \<open>
  \<^verbatim>\<open>findTrueSpawn\<close>. The spawn coordinates come from \<^verbatim>\<open>level.dat\<close> and the
  bytes of the chunk's \<^verbatim>\<open>Blocks\<close> tag from \<^verbatim>\<open>nbt.load_from_region\<close>; both
  readers are outside this module, so the coordinates are arguments and the region
  reader is the argument \<open>load_from_region\<close>, applied to the region's coordinates
  \<^verbatim>\<open>(chunkX // 32, chunkY // 32)\<close> of \<^verbatim>\<open>get_region_path\<close> and to the chunk's.
  Python 2's \<^verbatim>\<open>/\<close> on integers rounds down, as \<open>div\<close> does. The function
  appends one entry to \<^verbatim>\<open>self.POI\<close> of the world \<open>w\<close>.
\<close>

definition findTrueSpawn ::
  "(int \<times> int \<Rightarrow> int \<Rightarrow> int \<Rightarrow> 8 word list) \<Rightarrow> int \<Rightarrow> int \<Rightarrow> int \<Rightarrow> world \<Rightarrow>
     py_error + world" where
  "findTrueSpawn load_from_region spawnX spawnY spawnZ w =
     (let chunkX = spawnX div 16;
          chunkY = spawnZ div 16;
          blocks = load_from_region (chunkX div 32, chunkY div 32) chunkX chunkY
      in if length blocks \<noteq> 16 * 16 * 128 then Inl ValueError
         else
           let inChunkX = spawnX - chunkX * 16;
               inChunkZ = spawnZ - chunkY * 16
           in case spawn_loop blocks inChunkX inChunkZ spawnY of
                Inl e \<Rightarrow> Inl e
              | Inr spawnY' \<Rightarrow>
                  Inr (w\<lparr>POI := POI w @
                         [\<lparr>poi_x = spawnX, poi_y = spawnY', poi_z = spawnZ,
                           poi_msg = ''Spawn'', poi_type = ''spawn'',
                           poi_chunk = (inChunkX, inChunkZ)\<rparr>]\<rparr>))"

subsection \<open>The render dispatcher\<close>

text \<open>
  An item on the queue is a tuple whose first component is a tag. \<open>NewPOI e\<close> is
  \<^verbatim>\<open>("newpoi", e)\<close>, \<open>RemovePOI k\<close> is \<^verbatim>\<open>("removePOI", k)\<close>, and \<open>Other t\<close>
  is an item with any other tag \<open>t\<close>, which the dispatcher takes off the queue and
  drops.
\<close>

datatype message = NewPOI poi | RemovePOI "int \<times> int" | Other string

text \<open>The body of the \<^verbatim>\<open>try\<close> block after \<^verbatim>\<open>q.get\<close> has returned an item.\<close>

fun apply_item :: "message \<Rightarrow> world \<Rightarrow> world" where
  "apply_item (NewPOI e) w = w\<lparr>POI := POI w @ [e]\<rparr>"
| "apply_item (RemovePOI k) w =
     w\<lparr>persistentData_POI := filter (\<lambda>x. poi_chunk x \<noteq> k) (persistentData_POI w)\<rparr>"
| "apply_item (Other t) w = w"

text \<open>
  The functions of the \<^verbatim>\<open>chunk\<close> module the dispatcher calls; the module is not
  part of \<^verbatim>\<open>world.py\<close>, so they are parameters. \<^verbatim>\<open>find_oldimage\<close> returns the
  pair \<^verbatim>\<open>(oldimg, oldimg_path)\<close>, each possibly \<^verbatim>\<open>None\<close>;
  \<^verbatim>\<open>render_and_save\<close> returns a path or \<^verbatim>\<open>None\<close> and puts messages on the
  queue it is given, here the second component of its value.
\<close>

type_synonym oldimg = "string option \<times> string option"

record chunk_module =
  find_oldimage :: "chunk_xy \<Rightarrow> oldimg"
  check_cache :: "chunk_xy \<Rightarrow> oldimg \<Rightarrow> bool"
  render_and_save :: "chunk_xy \<Rightarrow> oldimg \<Rightarrow> string option \<times> message list"

text \<open>
  The dispatcher's local variables \<^verbatim>\<open>results\<close> and \<^verbatim>\<open>q\<close> together with the
  world it mutates. A value stored in the dictionary \<^verbatim>\<open>results\<close> is a path or
  \<^verbatim>\<open>None\<close>, hence the map to \<open>string option\<close>. The field \<open>rendered\<close> is the trace
  of the chunks \<^verbatim>\<open>render_and_save\<close> was called with or submitted for, in order; the
  program has no such variable.
\<close>

record dispatch =
  self :: world
  results :: "int \<times> int \<rightharpoonup> string option"
  q :: "message list"
  rendered :: "chunk_xy list"

text \<open>Python's truth value of a path or \<^verbatim>\<open>None\<close>.\<close>

fun truthy :: "string option \<Rightarrow> bool" where
  "truthy None = False"
| "truthy (Some s) = (s \<noteq> [])"

text \<open>
  \<^verbatim>\<open>q.get(block=False)\<close> inside \<^verbatim>\<open>try ... except Queue.Empty: pass\<close>: at
  most one item is taken, the oldest.
\<close>

definition poll :: "dispatch \<Rightarrow> dispatch" where
  "poll st =
     (case q st of
        [] \<Rightarrow> st
      | item # rest \<Rightarrow> st\<lparr>self := apply_item item (self st), q := rest\<rparr>)"

text \<open>
  \<^verbatim>\<open>_get_chunk_renderset\<close>: \<^verbatim>\<open>None\<close> when \<^verbatim>\<open>self.chunklist\<close> is
  \<^verbatim>\<open>None\<close> or empty, the exception in every other case.
\<close>

definition get_chunk_renderset :: "string list option \<Rightarrow> py_error + (int \<times> int) set option" where
  "get_chunk_renderset chunklist =
     (case chunklist of
        None \<Rightarrow> Inr None
      | Some paths \<Rightarrow> if paths = [] then Inr None else Inl NotYetWorking)"

text \<open>
  The loop of the branch \<^verbatim>\<open>processes == 1\<close>; \<open>i\<close> is the index that
  \<^verbatim>\<open>enumerate\<close> supplies.
\<close>

fun inline_loop :: "chunk_module \<Rightarrow> nat \<Rightarrow> translated_chunk list \<Rightarrow> dispatch \<Rightarrow> dispatch" where
  "inline_loop m i [] st = st"
| "inline_loop m i ((col, row, chunkXY) # chunks) st =
     (let oldimg = find_oldimage m chunkXY;
          (result, st1) =
            (if check_cache m chunkXY oldimg then (snd oldimg, st)
             else (fst (render_and_save m chunkXY oldimg),
                   st\<lparr>q := q st @ snd (render_and_save m chunkXY oldimg),
                      rendered := rendered st @ [chunkXY]\<rparr>));
          st2 = (if truthy result
                 then st1\<lparr>results := (results st1)((col, row) \<mapsto> result)\<rparr>
                 else st1);
          st3 = (if 0 < i then poll st2 else st2)
      in inline_loop m (i + 1) chunks st3)"

text \<open>
  The pooled branch. An entry of \<^verbatim>\<open>asyncresults\<close> holds either a
  \<^verbatim>\<open>FakeAsyncResult\<close> or the handle of a submitted job, whose \<^verbatim>\<open>get\<close> returns
  the value of \<^verbatim>\<open>render_and_save\<close> on the submitted arguments.
\<close>

datatype async_result = FakeAsyncResult "string option" | ApplyResult chunk_xy oldimg

fun async_get :: "chunk_module \<Rightarrow> async_result \<Rightarrow> string option" where
  "async_get m (FakeAsyncResult string) = string"
| "async_get m (ApplyResult chunkXY oldimg) = fst (render_and_save m chunkXY oldimg)"

fun submit_loop ::
  "chunk_module \<Rightarrow> translated_chunk list \<Rightarrow> dispatch \<Rightarrow> (int \<times> int \<times> async_result) list \<Rightarrow>
     dispatch \<times> (int \<times> int \<times> async_result) list" where
  "submit_loop m [] st asyncresults = (st, asyncresults)"
| "submit_loop m ((col, row, chunkXY) # chunks) st asyncresults =
     (let oldimg = find_oldimage m chunkXY
      in if check_cache m chunkXY oldimg
         then submit_loop m chunks st
                (asyncresults @ [(col, row, FakeAsyncResult (snd oldimg))])
         else submit_loop m chunks (st\<lparr>rendered := rendered st @ [chunkXY]\<rparr>)
                (asyncresults @ [(col, row, ApplyResult chunkXY oldimg)]))"

text \<open>
  The collecting loop. The workers put their messages on the queue while the
  dispatcher runs; \<open>arrivals i\<close> is the list of messages that reach the queue
  between the previous poll and the return of the \<open>i\<close>-th \<^verbatim>\<open>result.get()\<close>, in
  the order they arrive. Every schedule of the workers gives such a function.
\<close>

fun collect_loop ::
  "chunk_module \<Rightarrow> (nat \<Rightarrow> message list) \<Rightarrow> nat \<Rightarrow> (int \<times> int \<times> async_result) list \<Rightarrow>
     dispatch \<Rightarrow> dispatch" where
  "collect_loop m arrivals i [] st = st"
| "collect_loop m arrivals i ((col, row, result) # asyncresults) st =
     (let st1 = st\<lparr>q := q st @ arrivals i\<rparr>;
          st2 = st1\<lparr>results := (results st1)((col, row) \<mapsto> async_get m result)\<rparr>;
          st3 = poll st2
      in collect_loop m arrivals (i + 1) asyncresults st3)"

text \<open>
  \<^verbatim>\<open>_render_chunks_async\<close>. \<open>w\<close> is the world's state at the call, and the value
  is the state at the return: the dictionary returned, the world, what is left on the
  queue and the trace. \<^verbatim>\<open>multiprocessing.Pool\<close> raises ValueError for a number of
  processes below one; \<open>arrivals (length chunks)\<close> are the messages that arrive after
  the last poll, until \<^verbatim>\<open>pool.join()\<close> returns.
\<close>

definition render_chunks_async ::
  "chunk_module \<Rightarrow> string list option \<Rightarrow> world \<Rightarrow> (nat \<Rightarrow> message list) \<Rightarrow>
     translated_chunk list \<Rightarrow> int \<Rightarrow> py_error + dispatch" where
  "render_chunks_async m chunklist w arrivals chunks processes =
     (case get_chunk_renderset chunklist of
        Inl e \<Rightarrow> Inl e
      | Inr inclusion_set \<Rightarrow>
          (let st = \<lparr>self = w, results = Map.empty, q = [], rendered = []\<rparr>
           in if processes = 1 then Inr (inline_loop m 0 chunks st)
              else if processes < 1 then Inl ValueError
              else
                (let (st1, asyncresults) = submit_loop m chunks st [];
                     st2 = collect_loop m arrivals 0 asyncresults st1
                 in Inr (st2\<lparr>q := q st2 @ arrivals (length asyncresults)\<rparr>))))"

subsection \<open>Notions used in the statements about the dispatcher\<close>

text \<open>
  These are not functions of the program. \<open>cache_hit\<close> is the condition of the
  \<^verbatim>\<open>if\<close> in both loops; \<open>job_value\<close> is the value \<^verbatim>\<open>result\<close> gets for a
  chunk (in the pooled branch: the value \<^verbatim>\<open>result.get()\<close> returns);
  \<open>job_messages\<close> are the messages the chunk's render job writes, none when the job
  is not run; \<open>written\<close> collects them over a list of chunks, in list order.
\<close>

definition cache_hit :: "chunk_module \<Rightarrow> chunk_xy \<Rightarrow> bool" where
  "cache_hit m chunkXY = check_cache m chunkXY (find_oldimage m chunkXY)"

definition job_value :: "chunk_module \<Rightarrow> chunk_xy \<Rightarrow> string option" where
  "job_value m chunkXY =
     (if cache_hit m chunkXY then snd (find_oldimage m chunkXY)
      else fst (render_and_save m chunkXY (find_oldimage m chunkXY)))"

definition job_messages :: "chunk_module \<Rightarrow> chunk_xy \<Rightarrow> message list" where
  "job_messages m chunkXY =
     (if cache_hit m chunkXY then []
      else snd (render_and_save m chunkXY (find_oldimage m chunkXY)))"


subsection \<open>Properties of the coordinate conversion\<close>

lemma convert_loop_eq:
  "convert_loop cs lo hi lo' hi' acc =
     (fold (\<lambda>c m. min m (col_of c)) cs lo,
      fold (\<lambda>c m. max m (col_of c)) cs hi,
      fold (\<lambda>c m. min m (row_of c)) cs lo',
      fold (\<lambda>c m. max m (row_of c)) cs hi',
      acc @ map (\<lambda>c. (col_of c, row_of c, (fst c, fst (snd c)))) cs)"
  by (induction cs arbitrary: lo hi lo' hi' acc) (simp_all add: col_of_def row_of_def Let_def)

lemma fold_min_Min:
  "fold (\<lambda>c m. min m (f c)) cs (a::int) = Min (insert a (f ` set cs))"
proof (induction cs arbitrary: a)
  case Nil
  show ?case by simp
next
  case (Cons c cs)
  have "Min (insert (min a (f c)) (f ` set cs)) = Min (insert a (insert (f c) (f ` set cs)))"
    by (cases "f ` set cs = {}") (simp_all add: min.assoc)
  with Cons show ?case by simp
qed

lemma fold_max_Max:
  "fold (\<lambda>c m. max m (f c)) cs (a::int) = Max (insert a (f ` set cs))"
proof (induction cs arbitrary: a)
  case Nil
  show ?case by simp
next
  case (Cons c cs)
  have "Max (insert (max a (f c)) (f ` set cs)) = Max (insert a (insert (f c) (f ` set cs)))"
    by (cases "f ` set cs = {}") (simp_all add: max.assoc)
  with Cons show ?case by simp
qed

lemma convert_coords_Cons:
  "convert_coords (c # cs) =
     Inr (Min (col_of ` set (c # cs)), Max (col_of ` set (c # cs)),
          Min (row_of ` set (c # cs)), Max (row_of ` set (c # cs)),
          map (\<lambda>c. (col_of c, row_of c, (fst c, fst (snd c)))) (c # cs))"
proof -
  have ins: "\<And>f. insert (f c) (f ` set (c # cs)) = f ` set (c # cs)"
    by auto
  have "convert_coords (c # cs) =
      Inr (convert_loop (c # cs) (col_of c) (col_of c) (row_of c) (row_of c) [])"
    by (simp add: convert_coords_def col_of_def row_of_def)
  also have "convert_loop (c # cs) (col_of c) (col_of c) (row_of c) (row_of c) [] =
      (Min (col_of ` set (c # cs)), Max (col_of ` set (c # cs)),
       Min (row_of ` set (c # cs)), Max (row_of ` set (c # cs)),
       map (\<lambda>c. (col_of c, row_of c, (fst c, fst (snd c)))) (c # cs))"
    unfolding convert_loop_eq fold_min_Min fold_max_Max ins by simp
  finally show ?thesis .
qed

lemma translated_via_project:
  "(col_of c, row_of c, (fst c, fst (snd c))) =
     (fst (project (chunk_coord c)), snd (project (chunk_coord c)), chunk_coord c)"
  by (simp add: col_of_def row_of_def project_def chunk_coord_def)

lemma unproject_project: "unproject (project p) = p"
  by (simp add: unproject_def project_def prod_eq_iff)

text \<open>
  C3. For every non-empty chunk list, every entry of the list that
  \<^verbatim>\<open>_convert_coords\<close> returns is \<open>(col, row, (chunkX, chunkY))\<close> with
  \<open>(col, row) = (chunkX + chunkY, chunkY - chunkX)\<close>, the projection of the chunk at
  the same position of the input; \<open>x = (col - row) / 2\<close>, \<open>y = (col + row) / 2\<close>
  applied to the \<open>(col, row)\<close> of each entry gives back the chunk coordinates, in
  order; the projection is injective; and chunk \<open>(3, 5)\<close> gets column 8, row 2.
\<close>

theorem C3_projection_bijective:
  "(\<exists>mincol maxcol minrow maxrow translated.
      convert_coords (c # cs) = Inr (mincol, maxcol, minrow, maxrow, translated)
      \<and> translated =
          map (\<lambda>c. (fst (project (chunk_coord c)), snd (project (chunk_coord c)), chunk_coord c))
            (c # cs)
      \<and> map (\<lambda>t. unproject (fst t, fst (snd t))) translated = map chunk_coord (c # cs)
      \<and> map (\<lambda>t. snd (snd t)) translated = map chunk_coord (c # cs))
   \<and> unproject (project (x, y)) = (x, y)
   \<and> inj project
   \<and> project (3, 5) = (8, 2)
   \<and> convert_coords [(x, y, f)] =
       Inr (fst (project (x, y)), fst (project (x, y)),
            snd (project (x, y)), snd (project (x, y)),
            [(fst (project (x, y)), snd (project (x, y)), (x, y))])
   \<and> convert_coords [(1, 1, f), (3, 5, g)] = Inr (2, 8, 0, 2, [(2, 0, (1, 1)), (8, 2, (3, 5))])"
proof -
  let ?tr = "map (\<lambda>c. (fst (project (chunk_coord c)), snd (project (chunk_coord c)),
      chunk_coord c)) (c # cs)"
  have tr: "map (\<lambda>c. (col_of c, row_of c, (fst c, fst (snd c)))) (c # cs) = ?tr"
    by (simp only: translated_via_project)
  have run: "convert_coords (c # cs) =
      Inr (Min (col_of ` set (c # cs)), Max (col_of ` set (c # cs)),
           Min (row_of ` set (c # cs)), Max (row_of ` set (c # cs)), ?tr)"
    by (simp only: convert_coords_Cons tr)
  have undone: "map (\<lambda>t. unproject (fst t, fst (snd t))) ?tr = map chunk_coord (c # cs)"
    by (simp add: unproject_project del: list.map)
  have third: "map (\<lambda>t. snd (snd t)) ?tr = map chunk_coord (c # cs)"
    by (simp del: list.map)
  from run undone third have every: "\<exists>mincol maxcol minrow maxrow translated.
      convert_coords (c # cs) = Inr (mincol, maxcol, minrow, maxrow, translated)
      \<and> translated = ?tr
      \<and> map (\<lambda>t. unproject (fst t, fst (snd t))) translated = map chunk_coord (c # cs)
      \<and> map (\<lambda>t. snd (snd t)) translated = map chunk_coord (c # cs)"
    by blast
  have "inj project"
    by (rule inj_on_inverseI [where g = unproject]) (rule unproject_project)
  moreover have "project (3, 5) = (8, 2)"
    by (simp add: project_def)
  moreover have "convert_coords [(x, y, f)] =
       Inr (fst (project (x, y)), fst (project (x, y)),
            snd (project (x, y)), snd (project (x, y)),
            [(fst (project (x, y)), snd (project (x, y)), (x, y))])"
    by (simp add: convert_coords_def project_def Let_def)
  moreover have "convert_coords [(1, 1, f), (3, 5, g)] =
      Inr (2, 8, 0, 2, [(2, 0, (1, 1)), (8, 2, (3, 5))])"
    by (simp add: convert_coords_def Let_def)
  moreover have "unproject (project (x, y)) = (x, y)"
    by (rule unproject_project)
  ultimately show ?thesis
    using every by (intro conjI)
qed

text \<open>
  C7. For a non-empty list of chunks, \<^verbatim>\<open>_convert_coords\<close> returns the minimum and
  maximum column and row over all projected chunks, and the projected list has one
  entry per input chunk, in the input order.
\<close>

theorem C7_bounding_box:
  assumes "chunks \<noteq> []"
  shows "convert_coords chunks =
     Inr (Min (col_of ` set chunks), Max (col_of ` set chunks),
          Min (row_of ` set chunks), Max (row_of ` set chunks),
          map (\<lambda>c. (col_of c, row_of c, (fst c, fst (snd c)))) chunks)"
proof -
  from assms obtain c cs where "chunks = c # cs"
    by (cases chunks) auto
  then show ?thesis
    by (simp only: convert_coords_Cons)
qed

theorem C7_bounding_box_witness:
  "[(3, 5, ''r.0.0.mcr''), (-2, 1, ''r.-1.0.mcr''), (4, -7, ''r.0.-1.mcr'')] \<noteq> ([] :: raw_chunk list)
   \<and> convert_coords [(3, 5, ''r.0.0.mcr''), (-2, 1, ''r.-1.0.mcr''), (4, -7, ''r.0.-1.mcr'')] =
       Inr (-3, 8, -11, 3, [(8, 2, (3, 5)), (-1, 3, (-2, 1)), (-3, -11, (4, -7))])"
  using C7_bounding_box [of "[(3, 5, ''r.0.0.mcr''), (-2, 1, ''r.-1.0.mcr''), (4, -7, ''r.0.-1.mcr'')]"]
  by (simp add: col_of_def row_of_def)

text \<open>
  C10. \<^verbatim>\<open>_convert_coords\<close> fails with an IndexError on the empty list, where
  \<^verbatim>\<open>chunks[0]\<close> is read to seed the accumulators, and returns a bounding box
  exactly when the list is non-empty.
\<close>

theorem C10_empty_input_fails:
  "convert_coords [] = Inl IndexError
   \<and> ((\<exists>r. convert_coords chunks = Inr r) = (chunks \<noteq> []))"
proof (cases chunks)
  case Nil
  then show ?thesis by (simp add: convert_coords_def)
next
  case (Cons c cs)
  have "convert_coords [] = Inl IndexError"
    by (simp add: convert_coords_def)
  with Cons show ?thesis
    by (simp add: convert_coords_Cons del: list.map set_simps)
qed

subsection \<open>Properties of the region scan\<close>

lemma length_py_range_32: "length (py_range lo (lo + 32)) = 32"
  by (simp add: py_range_def)

lemma length_these_chunks: "length (these_chunks region) = 1024"
  by (simp add: these_chunks_def length_py_range_32)

lemma these_chunks_coords:
  "map chunk_coord (these_chunks region) =
     List.product
       (py_range (fst region * 32) (fst region * 32 + 32))
       (py_range (fst (snd region) * 32) (fst (snd region) * 32 + 32))"
  by (simp add: these_chunks_def chunk_coord_def comp_def)

lemma distinct_these_chunks: "distinct (map chunk_coord (these_chunks region))"
  unfolding these_chunks_coords
  by (rule distinct_product) (simp_all add: py_range_def)

lemma div32_block:
  assumes "a * 32 \<le> x" and "x \<le> a * 32 + 31"
  shows "x div 32 = (a::int)"
proof (rule int_div_pos_eq [where r = "x - a * 32"])
  show "x = 32 * a + (x - a * 32)" by simp
  show "0 \<le> x - a * 32" using assms by simp
  show "x - a * 32 < 32" using assms by simp
qed

lemma these_chunks_owner:
  assumes "c \<in> set (these_chunks region)"
  shows "(fst c div 32, fst (snd c) div 32) = region_coord region"
proof -
  from assms have "chunk_coord c \<in> set (map chunk_coord (these_chunks region))"
    by simp
  then have "fst region * 32 \<le> fst c \<and> fst c \<le> fst region * 32 + 31
      \<and> fst (snd region) * 32 \<le> fst (snd c) \<and> fst (snd c) \<le> fst (snd region) * 32 + 31"
    unfolding these_chunks_coords by (auto simp: py_range_def chunk_coord_def)
  then have "fst c div 32 = fst region \<and> fst (snd c) div 32 = fst (snd region)"
    by (simp add: div32_block)
  then show ?thesis by (simp add: region_coord_def)
qed

lemma chunklist_loop_eq:
  "chunklist_loop regions acc = Inr (acc @ concat (map these_chunks regions))"
  by (induction regions arbitrary: acc) (simp_all add: length_these_chunks)

lemma these_chunks_nonempty: "these_chunks region \<noteq> []"
  using length_these_chunks [of region] by auto

lemma get_chunklist_eq:
  "get_chunklist regions =
     (if regions = [] then Inl (SystemExit 1) else Inr (concat (map these_chunks regions)))"
  by (cases regions) (simp_all add: get_chunklist_def chunklist_loop_eq these_chunks_nonempty)

lemma length_all_chunks:
  "length (concat (map these_chunks regions)) = 1024 * length regions"
  by (induction regions) (simp_all add: length_these_chunks)

lemma distinct_all_chunks:
  "distinct (map region_coord regions) \<Longrightarrow>
     distinct (map chunk_coord (concat (map these_chunks regions)))"
proof (induction regions)
  case Nil
  show ?case by simp
next
  case (Cons r rs)
  have disj: "chunk_coord c \<noteq> chunk_coord c'"
    if c: "c \<in> set (these_chunks r)" and c': "c' \<in> set (concat (map these_chunks rs))" for c c'
  proof
    assume eq: "chunk_coord c = chunk_coord c'"
    from c' obtain r' where r': "r' \<in> set rs" "c' \<in> set (these_chunks r')"
      by auto
    from eq have "(fst c div 32, fst (snd c) div 32) = (fst c' div 32, fst (snd c') div 32)"
      by (simp add: chunk_coord_def)
    with these_chunks_owner [OF c] these_chunks_owner [OF r'(2)]
    have "region_coord r = region_coord r'" by simp
    with r'(1) Cons.prems show False by auto
  qed
  define rest where "rest = concat (map these_chunks rs)"
  from Cons have d: "distinct (map chunk_coord rest)"
    by (simp add: rest_def)
  from disj have "chunk_coord ` set (these_chunks r) \<inter> chunk_coord ` set rest = {}"
    unfolding rest_def by blast
  with d have "distinct (map chunk_coord (these_chunks r @ rest))"
    by (simp add: distinct_these_chunks)
  then show ?case
    by (simp add: rest_def)
qed

lemma mem_these_chunks_coords:
  "((x, y) \<in> set (map chunk_coord (these_chunks region))) =
     (fst region * 32 \<le> x \<and> x \<le> fst region * 32 + 31
      \<and> fst (snd region) * 32 \<le> y \<and> y \<le> fst (snd region) * 32 + 31)"
  unfolding these_chunks_coords by (simp add: py_range_def add.commute)

lemma these_chunks_product:
  "these_chunks r =
     [(x, y, snd (snd r)). x \<leftarrow> [fst r * 32..fst r * 32 + 31],
                           y \<leftarrow> [fst (snd r) * 32..fst (snd r) * 32 + 31]]"
  by (simp add: these_chunks_def py_range_def List.product_concat_map map_concat comp_def add.commute)

text \<open>
  C6, as stated, fails: two region files with the same coordinates (for instance in two
  leaf directories below \<^verbatim>\<open>region\<close>) each contribute their 1024 chunks, and every
  chunk coordinate of the block then appears twice.
\<close>

theorem C6_duplicate_coordinates_counterexample:
  "\<exists>cs. get_chunklist [(0, 0, ''region/a/r.0.0.mcr''), (0, 0, ''region/b/r.0.0.mcr'')] = Inr cs
     \<and> length cs = 2048
     \<and> \<not> distinct (map chunk_coord cs)"
proof -
  let ?ra = "(0, 0, ''region/a/r.0.0.mcr'') :: region"
  let ?rb = "(0, 0, ''region/b/r.0.0.mcr'') :: region"
  let ?cs = "concat (map these_chunks [?ra, ?rb])"
  have run: "get_chunklist [?ra, ?rb] = Inr ?cs"
    by (simp only: get_chunklist_eq) simp
  have len: "length ?cs = 2048"
    by (simp only: length_all_chunks) simp
  have "(0, 0) \<in> set (map chunk_coord (these_chunks ?ra))"
    by (simp only: mem_these_chunks_coords) simp
  moreover have "(0, 0) \<in> set (map chunk_coord (these_chunks ?rb))"
    by (simp only: mem_these_chunks_coords) simp
  ultimately have "\<not> distinct (map chunk_coord (these_chunks ?ra) @ map chunk_coord (these_chunks ?rb))"
    unfolding distinct_append by blast
  then have "\<not> distinct (map chunk_coord ?cs)"
    by simp
  with run len show ?thesis by blast
qed

lemma overlap_chunk_coords:
  assumes "region_coord r = region_coord r'"
  shows "map chunk_coord (these_chunks r) = map chunk_coord (these_chunks r')"
  using assms by (simp add: these_chunks_coords region_coord_def)

lemma not_distinct_all_chunks:
  "\<not> distinct (map region_coord regions) \<Longrightarrow>
     \<not> distinct (map chunk_coord (concat (map these_chunks regions)))"
proof (induction regions)
  case Nil
  then show ?case by simp
next
  case (Cons r rs)
  show ?case
  proof (cases "distinct (map region_coord rs)")
    case False
    with Cons.IH show ?thesis by simp
  next
    case True
    with Cons.prems obtain r' where r': "r' \<in> set rs" "region_coord r = region_coord r'"
      by auto
    from these_chunks_nonempty [of r] obtain c where c: "c \<in> set (these_chunks r)"
      by (cases "these_chunks r") auto
    then have "chunk_coord c \<in> set (map chunk_coord (these_chunks r))"
      by simp
    then have "chunk_coord c \<in> set (map chunk_coord (these_chunks r'))"
      by (simp only: overlap_chunk_coords [OF r'(2)])
    with r'(1) have "chunk_coord c \<in> chunk_coord ` set (concat (map these_chunks rs))"
      by auto
    with c have "chunk_coord ` set (these_chunks r)
        \<inter> chunk_coord ` set (concat (map these_chunks rs)) \<noteq> {}"
      by blast
    then show ?thesis by simp
  qed
qed

text \<open>
  C6, amended. For every non-empty list of regions \<^verbatim>\<open>_get_chunklist\<close> returns
  1024 entries per region, each region contributing the full product
  of the chunk coordinates \<open>regionX * 32 .. regionX * 32 + 31\<close> and
  \<open>regionY * 32 .. regionY * 32 + 31\<close> tagged with its file name, in region order;
  no chunk coordinate appears twice exactly when the regions have pairwise distinct
  coordinates.
\<close>

theorem C6_chunklist_size_and_distinct:
  assumes "regions \<noteq> []"
  shows "\<exists>cs. get_chunklist regions = Inr cs
     \<and> length cs = 1024 * length regions
     \<and> cs = concat (map (\<lambda>r. [(x, y, snd (snd r)).
                                 x \<leftarrow> [fst r * 32..fst r * 32 + 31],
                                 y \<leftarrow> [fst (snd r) * 32..fst (snd r) * 32 + 31]]) regions)
     \<and> distinct (map chunk_coord cs) = distinct (map region_coord regions)"
proof -
  have run: "get_chunklist regions = Inr (concat (map these_chunks regions))"
    using assms by (simp add: get_chunklist_eq)
  have "these_chunks =
      (\<lambda>r. [(x, y, snd (snd r)).
              x \<leftarrow> [fst r * 32..fst r * 32 + 31],
              y \<leftarrow> [fst (snd r) * 32..fst (snd r) * 32 + 31]])"
    by (rule ext) (rule these_chunks_product)
  then have prod: "concat (map these_chunks regions) =
      concat (map (\<lambda>r. [(x, y, snd (snd r)).
                            x \<leftarrow> [fst r * 32..fst r * 32 + 31],
                            y \<leftarrow> [fst (snd r) * 32..fst (snd r) * 32 + 31]]) regions)"
    by (rule arg_cong)
  have dist: "distinct (map chunk_coord (concat (map these_chunks regions)))
      = distinct (map region_coord regions)"
    using distinct_all_chunks [of regions] not_distinct_all_chunks [of regions] by blast
  from run prod dist length_all_chunks [of regions] show ?thesis
    by metis
qed

theorem C6_chunklist_size_and_distinct_witness:
  "[(0, 0, ''r.0.0.mcr''), (-1, 0, ''r.-1.0.mcr'')] \<noteq> ([] :: region list)
   \<and> distinct (map region_coord [(0, 0, ''r.0.0.mcr''), (-1, 0, ''r.-1.0.mcr'')])
   \<and> (\<exists>cs. get_chunklist [(0, 0, ''r.0.0.mcr''), (-1, 0, ''r.-1.0.mcr'')] = Inr cs
        \<and> length cs = 2048
        \<and> distinct (map chunk_coord cs))"
proof -
  let ?rs = "[(0, 0, ''r.0.0.mcr''), (-1, 0, ''r.-1.0.mcr'')] :: region list"
  have ne: "?rs \<noteq> []" by simp
  have d: "distinct (map region_coord ?rs)" by (simp add: region_coord_def)
  from C6_chunklist_size_and_distinct [OF ne] obtain cs where
    "get_chunklist ?rs = Inr cs" "length cs = 1024 * length ?rs"
    "distinct (map chunk_coord cs) = distinct (map region_coord ?rs)"
    by blast
  with d have "\<exists>cs. get_chunklist ?rs = Inr cs \<and> length cs = 2048 \<and> distinct (map chunk_coord cs)"
    by simp
  with ne d show ?thesis by blast
qed

text \<open>
  C9. \<^verbatim>\<open>_get_chunklist\<close> exits with status 1 exactly when the concatenation of the
  regions' chunks is empty, which is exactly when no region was found; in every other
  case it returns that concatenation, which is not empty. The assertion never fails.
\<close>

theorem C9_fatal_iff_no_regions:
  "(get_chunklist regions = Inl (SystemExit 1)) = (concat (map these_chunks regions) = [])
   \<and> (concat (map these_chunks regions) = []) = (regions = [])
   \<and> ((\<exists>e. get_chunklist regions = Inl e) = (regions = []))
   \<and> ((get_chunklist regions = Inr (concat (map these_chunks regions))
         \<and> concat (map these_chunks regions) \<noteq> []) = (regions \<noteq> []))"
proof -
  have empty: "(concat (map these_chunks regions) = []) = (regions = [])"
    by (cases regions) (simp_all add: these_chunks_nonempty)
  show ?thesis
    unfolding empty by (simp add: get_chunklist_eq)
qed

subsection \<open>Properties of the spawn resolver\<close>

lemma blockArray_get_in_range:
  assumes "0 \<le> i" "i < 16" "0 \<le> j" "j < 16" "0 \<le> k" "k < 128"
  shows "blockArray_get blocks i j k = Inr (blocks ! nat ((i * 16 + j) * 128 + k))"
  using assms by (simp add: blockArray_get_def np_axis_def)

lemma first_air_here:
  assumes "P (y::int)" and "y < 128"
  shows "Min ({y'. y \<le> y' \<and> y' < 128 \<and> P y'} \<union> {128}) = (y::int)"
proof (rule Min_eqI)
  have "{y'. y \<le> y' \<and> y' < 128 \<and> P y'} \<union> {128} \<subseteq> {y..<128} \<union> {128}"
    by auto
  then show "finite ({y'. y \<le> y' \<and> y' < 128 \<and> P y'} \<union> {128})"
    by (rule finite_subset) simp
  show "y \<in> {y'. y \<le> y' \<and> y' < 128 \<and> P y'} \<union> {128}"
    using assms by simp
  show "y \<le> y'" if "y' \<in> {y'. y \<le> y' \<and> y' < 128 \<and> P y'} \<union> {128}" for y'
    using that assms by auto
qed

lemma first_air_step:
  assumes "\<not> P (y::int)"
  shows "{y'. y \<le> y' \<and> y' < 128 \<and> P y'} = {y'. y + 1 \<le> y' \<and> y' < 128 \<and> P y'}"
proof -
  have "(y \<le> y' \<and> y' < 128 \<and> P y') = (y + 1 \<le> y' \<and> y' < 128 \<and> P y')" for y' :: int
    using assms by (cases "y' = y") auto
  then show ?thesis by simp
qed

lemma first_air_top:
  assumes "\<not> P (y::int)" and "y + 1 = 128"
  shows "Min ({y'. y \<le> y' \<and> y' < 128 \<and> P y'} \<union> {128}) = (128::int)"
proof -
  have "{y'. y + 1 \<le> y' \<and> y' < 128 \<and> P y'} = {}"
    using assms(2) by auto
  then show ?thesis
    by (simp only: first_air_step [of P y, OF assms(1)]) simp
qed

lemma spawn_loop_first_air:
  assumes "0 \<le> i" "i < 16" "0 \<le> j" "j < 16" "0 \<le> y" "y < 128"
  shows "spawn_loop blocks i j y =
     Inr (Min ({y'. y \<le> y' \<and> y' < 128 \<and> blocks ! nat ((i * 16 + j) * 128 + y') = 0} \<union> {128}))"
  using assms
proof (induction blocks i j y rule: spawn_loop.induct)
  case (1 blocks i j y)
  define air where "air = (\<lambda>y'. blocks ! nat ((i * 16 + j) * 128 + y') = 0)"
  have get: "blockArray_get blocks i j y = Inr (blocks ! nat ((i * 16 + j) * 128 + y))"
    using "1.prems" by (rule blockArray_get_in_range)
  have goal: "spawn_loop blocks i j y = Inr (Min ({y'. y \<le> y' \<and> y' < 128 \<and> air y'} \<union> {128}))"
  proof (cases "air y")
    case True
    then have "spawn_loop blocks i j y = Inr y"
      using get by (subst spawn_loop.simps) (simp add: air_def)
    with first_air_here [of air y, OF True "1.prems"(6)] show ?thesis
      by simp
  next
    case False
    then have nz: "blocks ! nat ((i * 16 + j) * 128 + y) \<noteq> 0"
      by (simp add: air_def)
    show ?thesis
    proof (cases "y + 1 = 128")
      case True
      then have "spawn_loop blocks i j y = Inr 128"
        using get nz by (subst spawn_loop.simps) simp
      with first_air_top [of air y, OF False True] show ?thesis
        by simp
    next
      case ne: False
      have "spawn_loop blocks i j (y + 1) =
          Inr (Min ({y'. y + 1 \<le> y' \<and> y' < 128 \<and> air y'} \<union> {128}))"
        unfolding air_def using "1.prems" ne by (intro "1.IH" [OF get nz ne]) simp_all
      moreover have "spawn_loop blocks i j y = spawn_loop blocks i j (y + 1)"
        using get nz ne by (subst spawn_loop.simps) simp
      ultimately show ?thesis
        by (simp only: first_air_step [of air y, OF False])
    qed
  qed
  then show ?case
    by (simp only: air_def)
qed

text \<open>
  C8. With \<open>0 \<le> spawnY < 128\<close> and a chunk whose \<^verbatim>\<open>Blocks\<close> tag holds
  \<open>16 * 16 * 128\<close> bytes, \<^verbatim>\<open>findTrueSpawn\<close> appends exactly one entry to
  \<^verbatim>\<open>self.POI\<close>, with
  \<open>x = spawnX\<close>, \<open>z = spawnZ\<close>, message \<^verbatim>\<open>Spawn\<close>, type \<^verbatim>\<open>spawn\<close>, whose
  \<open>y\<close> is the least height \<open>y' \<ge> spawnY\<close> below 128 where the block at
  \<open>(spawnX mod 16, spawnZ mod 16, y')\<close> is air, or 128 when there is none, and whose
  \<^verbatim>\<open>chunk\<close> field is the chunk-local pair \<open>(spawnX mod 16, spawnZ mod 16)\<close>.
\<close>

theorem C8_spawn_resolver:
  assumes "0 \<le> spawnY" and "spawnY < 128"
    and "length (load_from_region (spawnX div 16 div 32, spawnZ div 16 div 32)
           (spawnX div 16) (spawnZ div 16)) = 16 * 16 * 128"
  shows "findTrueSpawn load_from_region spawnX spawnY spawnZ w =
     Inr (w\<lparr>POI := POI w @
       [\<lparr>poi_x = spawnX,
         poi_y = Min ({y'. spawnY \<le> y' \<and> y' < 128 \<and>
                        load_from_region (spawnX div 16 div 32, spawnZ div 16 div 32)
                          (spawnX div 16) (spawnZ div 16)
                          ! nat ((spawnX mod 16 * 16 + spawnZ mod 16) * 128 + y') = 0}
                    \<union> {128}),
         poi_z = spawnZ, poi_msg = ''Spawn'', poi_type = ''spawn'',
         poi_chunk = (spawnX mod 16, spawnZ mod 16)\<rparr>]\<rparr>)"
proof -
  have locX: "spawnX - spawnX div 16 * 16 = spawnX mod 16"
    by (simp add: minus_div_mult_eq_mod)
  have locZ: "spawnZ - spawnZ div 16 * 16 = spawnZ mod 16"
    by (simp add: minus_div_mult_eq_mod)
  have "spawn_loop (load_from_region (spawnX div 16 div 32, spawnZ div 16 div 32)
           (spawnX div 16) (spawnZ div 16)) (spawnX mod 16) (spawnZ mod 16) spawnY =
     Inr (Min ({y'. spawnY \<le> y' \<and> y' < 128 \<and>
                        load_from_region (spawnX div 16 div 32, spawnZ div 16 div 32)
                          (spawnX div 16) (spawnZ div 16)
                          ! nat ((spawnX mod 16 * 16 + spawnZ mod 16) * 128 + y') = 0}
                    \<union> {128}))"
    using assms(1,2) by (intro spawn_loop_first_air) simp_all
  with assms(3) show ?thesis
    by (simp add: findTrueSpawn_def Let_def locX locZ)
qed

text \<open>
  The theorem at a chunk whose column \<open>(0, 0)\<close> is solid below height 10 and air from
  there up, with the spawn at \<open>(-16, 4, 32)\<close>: the resolved height is 10.
\<close>

theorem C8_spawn_resolver_witness:
  "(0::int) \<le> 4 \<and> (4::int) < 128
   \<and> length (replicate 10 (1::8 word) @ replicate 32758 0) = 16 * 16 * 128
   \<and> findTrueSpawn (\<lambda>region chunkX chunkY. replicate 10 1 @ replicate 32758 0) (- 16) 4 32
         \<lparr>POI = [], persistentData_POI = []\<rparr> =
       Inr \<lparr>POI = [\<lparr>poi_x = - 16, poi_y = 10, poi_z = 32, poi_msg = ''Spawn'',
                      poi_type = ''spawn'', poi_chunk = (0, 0)\<rparr>],
             persistentData_POI = []\<rparr>"
proof -
  define blocks :: "8 word list" where "blocks = replicate 10 1 @ replicate 32758 0"
  have len: "length blocks = 16 * 16 * 128"
    by (simp add: blocks_def)
  have solid: "blocks ! nat y' \<noteq> 0" if "y' < 10" for y' :: int
    using that by (simp add: blocks_def nth_append)
  have air: "blocks ! nat 10 = 0"
    by (simp add: blocks_def nth_append)
  have "Min ({y'. 4 \<le> y' \<and> y' < 128 \<and> blocks ! nat y' = 0} \<union> {128}) = (10::int)"
  proof (rule Min_eqI)
    have "{y'. 4 \<le> y' \<and> y' < 128 \<and> blocks ! nat y' = 0} \<union> {128} \<subseteq> {4..128}"
      by auto
    then show "finite ({y'. 4 \<le> y' \<and> y' < 128 \<and> blocks ! nat y' = 0} \<union> {128})"
      by (rule finite_subset) simp
    show "10 \<in> {y'. 4 \<le> y' \<and> y' < 128 \<and> blocks ! nat y' = 0} \<union> {128}"
      using air by simp
    show "10 \<le> y'" if "y' \<in> {y'. 4 \<le> y' \<and> y' < 128 \<and> blocks ! nat y' = 0} \<union> {128}" for y'
      using that solid [of y'] by (cases "y' < 10") auto
  qed
  moreover have "findTrueSpawn (\<lambda>region chunkX chunkY. blocks) (- 16) 4 32
        \<lparr>POI = [], persistentData_POI = []\<rparr> =
      Inr (\<lparr>POI = [], persistentData_POI = []\<rparr>\<lparr>POI := POI \<lparr>POI = [], persistentData_POI = []\<rparr> @ [\<lparr>poi_x = - 16,
         poi_y = Min ({y'. 4 \<le> y' \<and> y' < 128 \<and>
                        blocks ! nat ((- 16 mod 16 * 16 + 32 mod 16) * 128 + y') = 0} \<union> {128}),
         poi_z = 32, poi_msg = ''Spawn'', poi_type = ''spawn'',
         poi_chunk = (- 16 mod 16, 32 mod 16)\<rparr>]\<rparr>)"
    using len by (intro C8_spawn_resolver) simp_all
  ultimately have "findTrueSpawn (\<lambda>region chunkX chunkY. blocks) (- 16) 4 32
        \<lparr>POI = [], persistentData_POI = []\<rparr> =
      Inr \<lparr>POI = [\<lparr>poi_x = - 16, poi_y = 10, poi_z = 32, poi_msg = ''Spawn'',
                     poi_type = ''spawn'', poi_chunk = (0, 0)\<rparr>],
            persistentData_POI = []\<rparr>"
    by simp
  with len show ?thesis
    unfolding blocks_def by simp
qed

subsection \<open>Properties of the event handling\<close>



text \<open>
  C4, as stated, fails. The two messages work on different lists: \<^verbatim>\<open>newpoi\<close>
  appends to \<^verbatim>\<open>self.POI\<close>, \<^verbatim>\<open>removePOI\<close> filters
  \<^verbatim>\<open>self.persistentData['POI']\<close>. After both, the new entry is still in
  \<^verbatim>\<open>self.POI\<close>, and an older entry of the same chunk is gone from the persistent
  list.
\<close>

theorem C4_new_then_remove_counterexample:
  "self (poll (poll
     \<lparr>self = \<lparr>POI = [],
               persistentData_POI =
                 [\<lparr>poi_x = 20, poi_y = 70, poi_z = 40, poi_msg = ''Home'', poi_type = ''sign'',
                   poi_chunk = (1, 2)\<rparr>]\<rparr>,
      results = Map.empty,
      q = [NewPOI \<lparr>poi_x = 21, poi_y = 64, poi_z = 41, poi_msg = ''Mine'', poi_type = ''sign'',
                   poi_chunk = (1, 2)\<rparr>,
           RemovePOI (1, 2)],
      rendered = []\<rparr>)) =
   \<lparr>POI = [\<lparr>poi_x = 21, poi_y = 64, poi_z = 41, poi_msg = ''Mine'', poi_type = ''sign'',
             poi_chunk = (1, 2)\<rparr>],
    persistentData_POI = []\<rparr>"
  by (simp add: poll_def)

text \<open>
  C4, amended. \<^verbatim>\<open>newpoi\<close> with entry \<open>e\<close> followed by \<^verbatim>\<open>removePOI\<close> with
  \<open>e\<close>'s chunk leaves \<^verbatim>\<open>self.POI\<close> as it was with \<open>e\<close> appended, and leaves
  \<^verbatim>\<open>self.persistentData['POI']\<close> as it was without the entries of that chunk.
  \<^verbatim>\<open>removePOI\<close> with a key that is the chunk of no entry of the persistent list
  changes nothing, and applying \<^verbatim>\<open>removePOI\<close> twice is the same as applying it
  once.
\<close>

theorem C4_new_then_remove:
  "apply_item (RemovePOI (poi_chunk e)) (apply_item (NewPOI e) w) =
     w\<lparr>POI := POI w @ [e],
       persistentData_POI := filter (\<lambda>x. poi_chunk x \<noteq> poi_chunk e) (persistentData_POI w)\<rparr>
   \<and> poll (poll (st\<lparr>q := NewPOI e # RemovePOI (poi_chunk e) # rest\<rparr>)) =
       st\<lparr>self := apply_item (RemovePOI (poi_chunk e)) (apply_item (NewPOI e) (self st)),
          q := rest\<rparr>
   \<and> (k \<notin> poi_chunk ` set (persistentData_POI w) \<longrightarrow> apply_item (RemovePOI k) w = w)
   \<and> apply_item (RemovePOI k) (apply_item (RemovePOI k) w) = apply_item (RemovePOI k) w"
proof -
  have noop: "apply_item (RemovePOI k) w = w" if "k \<notin> poi_chunk ` set (persistentData_POI w)"
  proof -
    have "filter (\<lambda>x. poi_chunk x \<noteq> k) (persistentData_POI w) = persistentData_POI w"
      using that by (intro filter_True) auto
    then show ?thesis by simp
  qed
  have "poll (poll (st\<lparr>q := NewPOI e # RemovePOI (poi_chunk e) # rest\<rparr>)) =
       st\<lparr>self := apply_item (RemovePOI (poi_chunk e)) (apply_item (NewPOI e) (self st)),
          q := rest\<rparr>"
    by (simp add: poll_def)
  with noop show ?thesis by simp
qed

theorem C4_new_then_remove_witness:
  "(3, 4) \<notin> poi_chunk ` set (persistentData_POI
       \<lparr>POI = [], persistentData_POI =
          [\<lparr>poi_x = 20, poi_y = 70, poi_z = 40, poi_msg = ''Home'', poi_type = ''sign'',
            poi_chunk = (1, 2)\<rparr>]\<rparr>)
   \<and> apply_item (RemovePOI (3, 4))
       \<lparr>POI = [], persistentData_POI =
          [\<lparr>poi_x = 20, poi_y = 70, poi_z = 40, poi_msg = ''Home'', poi_type = ''sign'',
            poi_chunk = (1, 2)\<rparr>]\<rparr> =
       \<lparr>POI = [], persistentData_POI =
          [\<lparr>poi_x = 20, poi_y = 70, poi_z = 40, poi_msg = ''Home'', poi_type = ''sign'',
            poi_chunk = (1, 2)\<rparr>]\<rparr>"
proof -
  let ?w = "\<lparr>POI = [], persistentData_POI =
          [\<lparr>poi_x = 20, poi_y = 70, poi_z = 40, poi_msg = ''Home'', poi_type = ''sign'',
            poi_chunk = (1, 2)\<rparr>]\<rparr>"
  have fresh: "(3, 4) \<notin> poi_chunk ` set (persistentData_POI ?w)"
    by simp
  from C4_new_then_remove [of undefined ?w undefined undefined "(3, 4)"]
  have "(3, 4) \<notin> poi_chunk ` set (persistentData_POI ?w) \<longrightarrow> apply_item (RemovePOI (3, 4)) ?w = ?w"
    by blast
  with fresh show ?thesis by blast
qed

subsection \<open>Properties of the dispatcher\<close>

lemma poll_results [simp]: "results (poll st) = results st"
  by (simp add: poll_def split: list.splits)

lemma poll_rendered [simp]: "rendered (poll st) = rendered st"
  by (simp add: poll_def split: list.splits)

lemma inline_loop_Cons:
  "inline_loop m i ((col, row, chunkXY) # chunks) st =
     inline_loop m (i + 1) chunks
       ((if 0 < i then poll else id)
          (st\<lparr>q := q st @ job_messages m chunkXY,
              rendered := rendered st @ (if cache_hit m chunkXY then [] else [chunkXY]),
              results := (if truthy (job_value m chunkXY)
                          then (results st)((col, row) \<mapsto> job_value m chunkXY)
                          else results st)\<rparr>))"
  by (simp add: Let_def job_messages_def job_value_def cache_hit_def)

lemma inline_loop_rendered:
  "rendered (inline_loop m i chunks st) =
     rendered st @ map (\<lambda>c. snd (snd c)) (filter (\<lambda>c. \<not> cache_hit m (snd (snd c))) chunks)"
proof (induction chunks arbitrary: i st)
  case Nil
  show ?case by simp
next
  case (Cons c chunks)
  obtain col row chunkXY where c: "c = (col, row, chunkXY)"
    by (cases c) auto
  show ?case
    unfolding c inline_loop_Cons Cons.IH by simp
qed

lemma inline_loop_results:
  assumes "\<And>c. c \<in> set chunks \<Longrightarrow> fst c = col \<Longrightarrow> fst (snd c) = row \<Longrightarrow>
             job_value m (snd (snd c)) = v"
    and "truthy v"
    and "results st (col, row) = Some v \<or> (\<exists>c \<in> set chunks. fst c = col \<and> fst (snd c) = row)"
  shows "results (inline_loop m i chunks st) (col, row) = Some v"
  using assms
proof (induction chunks arbitrary: i st)
  case Nil
  then show ?case by simp
next
  case (Cons c chunks)
  obtain col' row' chunkXY where c: "c = (col', row', chunkXY)"
    by (cases c) auto
  define st' where "st' = (if 0 < i then poll else id)
          (st\<lparr>q := q st @ job_messages m chunkXY,
              rendered := rendered st @ (if cache_hit m chunkXY then [] else [chunkXY]),
              results := (if truthy (job_value m chunkXY)
                          then (results st)((col', row') \<mapsto> job_value m chunkXY)
                          else results st)\<rparr>)"
  have res: "results st' = (if truthy (job_value m chunkXY)
                          then (results st)((col', row') \<mapsto> job_value m chunkXY)
                          else results st)"
    by (simp add: st'_def)
  have "results st' (col, row) = Some v \<or> (\<exists>c \<in> set chunks. fst c = col \<and> fst (snd c) = row)"
  proof (cases "(col', row') = (col, row)")
    case True
    then have "job_value m chunkXY = v"
      using Cons.prems(1) [of c] by (simp add: c)
    with True Cons.prems(2) show ?thesis
      by (simp add: res)
  next
    case False
    then have "results st' (col, row) = results st (col, row)"
      by (auto simp: res)
    with False Cons.prems(3) show ?thesis
      by (auto simp: c)
  qed
  then have "results (inline_loop m (i + 1) chunks st') (col, row) = Some v"
    using Cons.prems(1,2) by (intro Cons.IH) auto
  then show ?case
    unfolding c inline_loop_Cons st'_def .
qed

lemma submit_loop_eq:
  "submit_loop m chunks st asyncresults =
     (st\<lparr>rendered := rendered st @
           map (\<lambda>c. snd (snd c)) (filter (\<lambda>c. \<not> cache_hit m (snd (snd c))) chunks)\<rparr>,
      asyncresults @
        map (\<lambda>c. (fst c, fst (snd c),
                   if cache_hit m (snd (snd c))
                   then FakeAsyncResult (snd (find_oldimage m (snd (snd c))))
                   else ApplyResult (snd (snd c)) (find_oldimage m (snd (snd c))))) chunks)"
proof (induction chunks arbitrary: st asyncresults)
  case Nil
  show ?case by simp
next
  case (Cons c chunks)
  obtain col row chunkXY where c: "c = (col, row, chunkXY)"
    by (cases c) auto
  show ?case
    unfolding c by (simp add: Cons.IH Let_def cache_hit_def)
qed

lemma collect_loop_rendered: "rendered (collect_loop m arrivals i asyncresults st) = rendered st"
proof (induction asyncresults arbitrary: i st)
  case Nil
  show ?case by simp
next
  case (Cons a asyncresults)
  obtain col row result where a: "a = (col, row, result)"
    by (cases a) auto
  show ?case
    unfolding a by (simp add: Cons.IH Let_def)
qed

lemma collect_loop_results:
  assumes "\<And>a. a \<in> set asyncresults \<Longrightarrow> fst a = col \<Longrightarrow> fst (snd a) = row \<Longrightarrow>
             async_get m (snd (snd a)) = v"
    and "results st (col, row) = Some v
         \<or> (\<exists>a \<in> set asyncresults. fst a = col \<and> fst (snd a) = row)"
  shows "results (collect_loop m arrivals i asyncresults st) (col, row) = Some v"
  using assms
proof (induction asyncresults arbitrary: i st)
  case Nil
  then show ?case by simp
next
  case (Cons a asyncresults)
  obtain col' row' result where a: "a = (col', row', result)"
    by (cases a) auto
  define st' where "st' = poll (st\<lparr>q := q st @ arrivals i,
      results := (results st)((col', row') \<mapsto> async_get m result)\<rparr>)"
  have step: "collect_loop m arrivals i (a # asyncresults) st =
      collect_loop m arrivals (i + 1) asyncresults st'"
    by (simp add: a st'_def Let_def)
  have res: "results st' = (results st)((col', row') \<mapsto> async_get m result)"
    by (simp add: st'_def)
  have "results st' (col, row) = Some v
      \<or> (\<exists>a \<in> set asyncresults. fst a = col \<and> fst (snd a) = row)"
  proof (cases "(col', row') = (col, row)")
    case True
    then have "async_get m result = v"
      using Cons.prems(1) [of a] by (simp add: a)
    with True show ?thesis
      by (simp add: res)
  next
    case False
    then have "results st' (col, row) = results st (col, row)"
      by (auto simp: res)
    with False Cons.prems(2) show ?thesis
      by (auto simp: a)
  qed
  then have "results (collect_loop m arrivals (i + 1) asyncresults st') (col, row) = Some v"
    using Cons.prems(1) by (intro Cons.IH) auto
  then show ?case
    by (simp only: step)
qed

lemma convert_coords_entries:
  assumes "convert_coords raw_chunks = Inr (mincol, maxcol, minrow, maxrow, chunks)"
    and "c \<in> set chunks"
  shows "(fst c, fst (snd c)) = project (snd (snd c))"
proof -
  from assms(1) have ne: "raw_chunks \<noteq> []"
    by (auto simp: convert_coords_def)
  then obtain r rs where "raw_chunks = r # rs"
    by (cases raw_chunks) auto
  with assms(1) have "chunks = map (\<lambda>c. (col_of c, row_of c, (fst c, fst (snd c)))) raw_chunks"
    by (simp only: convert_coords_Cons) simp
  with assms(2) show ?thesis
    by (auto simp: project_def col_of_def row_of_def)
qed

lemma project_inj: "project a = project b \<Longrightarrow> a = b"
proof -
  assume "project a = project b"
  then have "unproject (project a) = unproject (project b)"
    by simp
  then show "a = b"
    by (simp add: unproject_def project_def prod_eq_iff)
qed

lemma get_chunk_renderset_None:
  "chunklist = None \<or> chunklist = Some [] \<Longrightarrow> get_chunk_renderset chunklist = Inr None"
  by (auto simp: get_chunk_renderset_def)

lemma render_chunks_async_inline:
  assumes "chunklist = None \<or> chunklist = Some []"
  shows "render_chunks_async m chunklist w arrivals chunks 1 =
     Inr (inline_loop m 0 chunks \<lparr>self = w, results = Map.empty, q = [], rendered = []\<rparr>)"
  using get_chunk_renderset_None [OF assms] by (simp add: render_chunks_async_def)

lemma render_chunks_async_pooled:
  assumes "chunklist = None \<or> chunklist = Some []" and "1 < processes"
  shows "render_chunks_async m chunklist w arrivals chunks processes =
     Inr ((collect_loop m arrivals 0
             (snd (submit_loop m chunks \<lparr>self = w, results = Map.empty, q = [], rendered = []\<rparr> []))
             (fst (submit_loop m chunks \<lparr>self = w, results = Map.empty, q = [], rendered = []\<rparr> [])))
          \<lparr>q := q (collect_loop m arrivals 0
             (snd (submit_loop m chunks \<lparr>self = w, results = Map.empty, q = [], rendered = []\<rparr> []))
             (fst (submit_loop m chunks \<lparr>self = w, results = Map.empty, q = [], rendered = []\<rparr> [])))
             @ arrivals (length chunks)\<rparr>)"
proof -
  have "length (snd (submit_loop m chunks \<lparr>self = w, results = Map.empty, q = [], rendered = []\<rparr> []))
      = length chunks"
    by (simp add: submit_loop_eq)
  then show ?thesis
    using get_chunk_renderset_None [OF assms(1)] assms(2)
    by (simp add: render_chunks_async_def Let_def case_prod_unfold)
qed

text \<open>
  C1. Let the chunk list be one that \<^verbatim>\<open>_convert_coords\<close> returned, let
  \<^verbatim>\<open>check_cache\<close> be true for a chunk of the list and its prior image, and let
  that prior image have a path (a non-empty string). Let \<^verbatim>\<open>self.chunklist\<close> be
  \<^verbatim>\<open>None\<close> or empty, since \<^verbatim>\<open>_get_chunk_renderset\<close> raises on every other
  value. Then, with one process as with several, \<^verbatim>\<open>_render_chunks_async\<close>
  returns, \<^verbatim>\<open>render_and_save\<close> is neither called nor submitted for that chunk, and
  the returned dictionary maps the chunk's \<open>(col, row)\<close> to the path of the prior
  image.
\<close>

theorem C1_cache_hit_skips_render:
  assumes "chunklist = None \<or> chunklist = Some []"
    and "convert_coords raw_chunks = Inr (mincol, maxcol, minrow, maxrow, chunks)"
    and "(col, row, chunkXY) \<in> set chunks"
    and "check_cache m chunkXY (find_oldimage m chunkXY)"
    and "snd (find_oldimage m chunkXY) = Some path"
    and "path \<noteq> []"
    and "1 \<le> processes"
  shows "\<exists>st. render_chunks_async m chunklist w arrivals chunks processes = Inr st
     \<and> chunkXY \<notin> set (rendered st)
     \<and> results st (col, row) = Some (Some path)"
proof -
  let ?init = "\<lparr>self = w, results = Map.empty, q = [], rendered = []\<rparr>"
  have hit: "cache_hit m chunkXY"
    using assms(4) by (simp add: cache_hit_def)
  have val: "job_value m chunkXY = Some path"
    using hit assms(5) by (simp add: job_value_def)
  have same: "snd (snd c) = chunkXY"
    if "c \<in> set chunks" "fst c = col" "fst (snd c) = row" for c
  proof -
    have "project (snd (snd c)) = (col, row)"
      using convert_coords_entries [OF assms(2) that(1)] that(2,3) by simp
    moreover have "project chunkXY = (col, row)"
      using convert_coords_entries [OF assms(2) assms(3)] by simp
    ultimately have "project (snd (snd c)) = project chunkXY"
      by simp
    then show ?thesis
      by (rule project_inj)
  qed
  have not_rendered: "chunkXY \<notin> set (map (\<lambda>c. snd (snd c))
      (filter (\<lambda>c. \<not> cache_hit m (snd (snd c))) chunks))"
    using hit by auto
  show ?thesis
  proof (cases "processes = 1")
    case True
    let ?st = "inline_loop m 0 chunks ?init"
    have run: "render_chunks_async m chunklist w arrivals chunks processes = Inr ?st"
      unfolding True by (rule render_chunks_async_inline [OF assms(1)])
    have "chunkXY \<notin> set (rendered ?st)"
      using not_rendered by (simp only: inline_loop_rendered) simp
    moreover have "results ?st (col, row) = Some (Some path)"
    proof -
      have vals: "job_value m (snd (snd c)) = Some path"
        if "c \<in> set chunks" "fst c = col" "fst (snd c) = row" for c
        using same [OF that] val by simp
      have tr: "truthy (Some path)"
        using assms(6) by simp
      have "\<exists>c \<in> set chunks. fst c = col \<and> fst (snd c) = row"
        using assms(3) by (intro bexI [of _ "(col, row, chunkXY)"]) simp_all
      then have ex: "results ?init (col, row) = Some (Some path)
          \<or> (\<exists>c \<in> set chunks. fst c = col \<and> fst (snd c) = row)"
        by (rule disjI2)
      show ?thesis
        by (rule inline_loop_results [where v = "Some path", OF vals tr ex]) assumption+
    qed
    ultimately show ?thesis
      using run by blast
  next
    case False
    with assms(7) have many: "1 < processes"
      by simp
    define h where "h = (\<lambda>c :: translated_chunk. (fst c, fst (snd c),
        if cache_hit m (snd (snd c))
        then FakeAsyncResult (snd (find_oldimage m (snd (snd c))))
        else ApplyResult (snd (snd c)) (find_oldimage m (snd (snd c)))))"
    define sub where "sub = submit_loop m chunks ?init []"
    define coll where "coll = collect_loop m arrivals 0 (snd sub) (fst sub)"
    define st where "st = coll\<lparr>q := q coll @ arrivals (length chunks)\<rparr>"
    have sub_snd: "snd sub = map h chunks"
      by (simp add: sub_def h_def submit_loop_eq)
    have sub_rendered: "rendered (fst sub) = map (\<lambda>c. snd (snd c))
        (filter (\<lambda>c. \<not> cache_hit m (snd (snd c))) chunks)"
      by (simp add: sub_def submit_loop_eq)
    have run: "render_chunks_async m chunklist w arrivals chunks processes = Inr st"
      unfolding st_def coll_def sub_def
      by (rule render_chunks_async_pooled [OF assms(1) many])
    have "rendered st = rendered (fst sub)"
      by (simp add: st_def coll_def collect_loop_rendered)
    with not_rendered sub_rendered have "chunkXY \<notin> set (rendered st)"
      by simp
    moreover have "results coll (col, row) = Some (Some path)"
    proof -
      have vals: "async_get m (snd (snd a)) = Some path"
        if "a \<in> set (snd sub)" "fst a = col" "fst (snd a) = row" for a
      proof -
        from that(1) obtain c where c: "c \<in> set chunks" and a: "a = h c"
          unfolding sub_snd by auto
        from a that(2,3) have "fst c = col" "fst (snd c) = row"
          by (simp_all add: h_def)
        with same [OF c] have "snd (snd c) = chunkXY"
          by simp
        with a hit assms(5) show ?thesis
          by (simp add: h_def)
      qed
      have "h (col, row, chunkXY) \<in> set (snd sub)"
        unfolding sub_snd using assms(3) by simp
      moreover have "fst (h (col, row, chunkXY)) = col"
        "fst (snd (h (col, row, chunkXY))) = row"
        by (simp_all add: h_def)
      ultimately have "\<exists>a \<in> set (snd sub). fst a = col \<and> fst (snd a) = row"
        by blast
      then have ex: "results (fst sub) (col, row) = Some (Some path)
          \<or> (\<exists>a \<in> set (snd sub). fst a = col \<and> fst (snd a) = row)"
        by (rule disjI2)
      show ?thesis
        unfolding coll_def
        by (rule collect_loop_results [where v = "Some path", OF vals ex]) assumption+
    qed
    then have "results st (col, row) = Some (Some path)"
      by (simp add: st_def)
    ultimately show ?thesis
      using run by blast
  qed
qed

text \<open>
  The theorem at the chunks \<open>(2, 3)\<close> and \<open>(0, 0)\<close>, where only \<open>(2, 3)\<close> has a
  prior image, with one process and with four.
\<close>

theorem C1_cache_hit_skips_render_witness:
  "convert_coords [(2, 3, ''r.0.0.mcr''), (0, 0, ''r.0.0.mcr'')] =
     Inr (0, 5, 0, 1, [(5, 1, (2, 3)), (0, 0, (0, 0))])
   \<and> (5 :: int, 1 :: int, (2 :: int, 3 :: int)) \<in> set [(5, 1, (2, 3)), (0, 0, (0, 0))]
   \<and> (\<exists>st. render_chunks_async
          \<lparr>find_oldimage = (\<lambda>xy. if xy = (2, 3) then (Some ''img.2.3.nocave.png'', Some ''cache/2/3/img.2.3.nocave.png'') else (None, None)),
           check_cache = (\<lambda>xy oldimg. snd oldimg \<noteq> None),
           render_and_save = (\<lambda>xy oldimg. (None, []))\<rparr>
          None \<lparr>POI = [], persistentData_POI = []\<rparr> (\<lambda>i. [])
          [(5, 1, (2, 3)), (0, 0, (0, 0))] 1 = Inr st
        \<and> (2, 3) \<notin> set (rendered st)
        \<and> results st (5, 1) = Some (Some ''cache/2/3/img.2.3.nocave.png''))
   \<and> (\<exists>st. render_chunks_async
          \<lparr>find_oldimage = (\<lambda>xy. if xy = (2, 3) then (Some ''img.2.3.nocave.png'', Some ''cache/2/3/img.2.3.nocave.png'') else (None, None)),
           check_cache = (\<lambda>xy oldimg. snd oldimg \<noteq> None),
           render_and_save = (\<lambda>xy oldimg. (None, []))\<rparr>
          None \<lparr>POI = [], persistentData_POI = []\<rparr> (\<lambda>i. [])
          [(5, 1, (2, 3)), (0, 0, (0, 0))] 4 = Inr st
        \<and> (2, 3) \<notin> set (rendered st)
        \<and> results st (5, 1) = Some (Some ''cache/2/3/img.2.3.nocave.png''))"
proof -
  let ?m = "\<lparr>find_oldimage = (\<lambda>xy. if xy = (2, 3) then (Some ''img.2.3.nocave.png'', Some ''cache/2/3/img.2.3.nocave.png'') else (None, None)),
           check_cache = (\<lambda>xy oldimg. snd oldimg \<noteq> None),
           render_and_save = (\<lambda>xy oldimg. (None, []))\<rparr> :: chunk_module"
  let ?chunks = "[(5, 1, (2, 3)), (0, 0, (0, 0))] :: translated_chunk list"
  have conv: "convert_coords [(2, 3, ''r.0.0.mcr''), (0, 0, ''r.0.0.mcr'')] =
      Inr (0, 5, 0, 1, ?chunks)"
    by (simp add: convert_coords_def Let_def)
  have mem: "(5, 1, (2, 3)) \<in> set ?chunks"
    by simp
  have none: "(None :: string list option) = None \<or> (None :: string list option) = Some []"
    by simp
  have hit: "check_cache ?m (2, 3) (find_oldimage ?m (2, 3))"
    by simp
  have path: "snd (find_oldimage ?m (2, 3)) = Some ''cache/2/3/img.2.3.nocave.png''"
    by simp
  have ne: "''cache/2/3/img.2.3.nocave.png'' \<noteq> []"
    by simp
  note inst = C1_cache_hit_skips_render [OF none conv mem hit path ne,
      where w = "\<lparr>POI = [], persistentData_POI = []\<rparr>" and arrivals = "\<lambda>i. []"]
  have one: "(1::int) \<le> 1" and four: "(1::int) \<le> 4"
    by simp_all
  show ?thesis
    by (rule conjI [OF conv conjI [OF mem conjI [OF inst [OF one] inst [OF four]]]])
qed

text \<open>
  C2. The two branches differ on a chunk whose job returns \<^verbatim>\<open>None\<close> (a chunk
  with no stored data and no prior image): with one process the guard
  \<^verbatim>\<open>if result:\<close> keeps the key out of the dictionary, with four processes the
  key is stored with the value \<^verbatim>\<open>None\<close>.
\<close>

theorem C2_modes_differ_on_empty_result:
  "\<exists>st1 st4.
     render_chunks_async
       \<lparr>find_oldimage = (\<lambda>xy. (None, None)), check_cache = (\<lambda>xy oldimg. False),
        render_and_save = (\<lambda>xy oldimg. (None, []))\<rparr>
       None \<lparr>POI = [], persistentData_POI = []\<rparr> (\<lambda>i. []) [(0, 0, (0, 0))] 1 = Inr st1
     \<and> render_chunks_async
       \<lparr>find_oldimage = (\<lambda>xy. (None, None)), check_cache = (\<lambda>xy oldimg. False),
        render_and_save = (\<lambda>xy oldimg. (None, []))\<rparr>
       None \<lparr>POI = [], persistentData_POI = []\<rparr> (\<lambda>i. []) [(0, 0, (0, 0))] 4 = Inr st4
     \<and> results st1 (0, 0) = None
     \<and> results st4 (0, 0) = Some None
     \<and> results st1 \<noteq> results st4"
proof -
  let ?m = "\<lparr>find_oldimage = (\<lambda>xy. (None, None)), check_cache = (\<lambda>xy oldimg. False),
        render_and_save = (\<lambda>xy oldimg. (None, []))\<rparr> :: chunk_module"
  let ?w = "\<lparr>POI = [], persistentData_POI = []\<rparr>"
  let ?st1 = "\<lparr>self = ?w, results = Map.empty, q = [], rendered = [(0, 0)]\<rparr>"
  let ?st4 = "\<lparr>self = ?w, results = [(0, 0) \<mapsto> None], q = [], rendered = [(0, 0)]\<rparr>"
  have r1: "render_chunks_async ?m None ?w (\<lambda>i. []) [(0, 0, (0, 0))] 1 = Inr ?st1"
    by (simp add: render_chunks_async_def get_chunk_renderset_def)
  have r4: "render_chunks_async ?m None ?w (\<lambda>i. []) [(0, 0, (0, 0))] 4 = Inr ?st4"
    by (simp add: render_chunks_async_def get_chunk_renderset_def poll_def)
  have "results ?st1 (0, 0) \<noteq> results ?st4 (0, 0)"
    by simp
  then have "results ?st1 \<noteq> results ?st4"
    by metis
  with r1 r4 show ?thesis
    by (intro exI [of _ ?st1] exI [of _ ?st4]) simp
qed

subsection \<open>What the polls take off the queue\<close>







end
